theory Spec2Isabelle
  imports Main
begin

section \<open>Data model of \<open>src/App.tsx\<close>\<close>

text \<open>
  Strings are lists of code units. A \<^typ>\<open>char\<close> has eight bits, so the model covers the
  code units below 256 (Latin-1); of the white space and line terminator code units of
  JavaScript these are TAB, LF, VT, FF, CR, SP and NBSP.
\<close>

text \<open>
  Modelled from the spec: the enum \<open>ExamDifficulty\<close> is imported from \<open>./types\<close>, which is
  not among the sources; the spec lists its members as EASY, MEDIUM and HARD.
\<close>

datatype ExamDifficulty = EASY | MEDIUM | HARD

datatype language = vi | en

text \<open>
  The configuration object of \<open>useState<ExamConfig>\<close> (lines 6-15). The two counts are
  JavaScript numbers that only ever hold the result of \<open>parseInt(...) || 0\<close> or the
  initial constants, hence integers.
\<close>

record ExamConfig =
  topic :: string
  grade :: string
  difficulty :: ExamDifficulty
  numMultipleChoice :: int
  numEssay :: int
  useTikz :: bool
  varyData :: bool
  language :: language

text \<open>
  A browser \<open>File\<close>: its \<open>name\<close>, its declared MIME \<open>type\<close> and the identity of its bytes.
\<close>

record File =
  file_name :: string
  file_type :: string
  file_blob :: nat

subsection \<open>\<open>parseInt\<close> and the count fields (lines 351 and 366)\<close>

definition isWhiteSpace :: "char \<Rightarrow> bool" where
  "isWhiteSpace c = (c \<in> {CHR 0x09, CHR 0x0A, CHR 0x0B, CHR 0x0C, CHR 0x0D, CHR 0x20, CHR 0xA0})"

text \<open>The value of a code unit as a digit of the given radix (10 or 16), if it is one.\<close>

definition digitValue :: "nat \<Rightarrow> char \<Rightarrow> nat option" where
  "digitValue R c =
     (let n = (of_char c :: nat);
          v = (if 48 \<le> n \<and> n \<le> 57 then Some (n - 48)
               else if 97 \<le> n \<and> n \<le> 122 then Some (n - 87)
               else if 65 \<le> n \<and> n \<le> 90 then Some (n - 55)
               else None)
      in case v of None \<Rightarrow> None | Some d \<Rightarrow> (if d < R then Some d else None))"

text \<open>
  The longest prefix of radix-\<open>R\<close> digits, read left to right with the value so far in
  \<open>acc\<close>; \<open>None\<close> when the prefix is empty. \<open>seen\<close> records whether a digit was read.
\<close>

fun parseDigits :: "nat \<Rightarrow> bool \<Rightarrow> nat \<Rightarrow> string \<Rightarrow> nat option" where
  "parseDigits R seen acc [] = (if seen then Some acc else None)"
| "parseDigits R seen acc (c # cs) =
     (case digitValue R c of
        None \<Rightarrow> (if seen then Some acc else None)
      | Some d \<Rightarrow> parseDigits R True (acc * R + d) cs)"

text \<open>
  \<open>parseInt(string)\<close> with no radix argument, following ECMAScript: leading white space
  is dropped, one sign is read, a prefix \<open>0x\<close> or \<open>0X\<close> selects radix 16, and the longest
  digit prefix is converted. \<open>None\<close> is \<open>NaN\<close>. The result is the mathematical value; the
  JavaScript number is that value rounded to a double, which is the same value up to
  \<open>2^53\<close>.
\<close>

definition parseInt :: "string \<Rightarrow> int option" where
  "parseInt inputString =
     (let S = dropWhile isWhiteSpace inputString;
          sign = (if S \<noteq> [] \<and> hd S = CHR ''-'' then - 1 else (1::int));
          S1 = (if S \<noteq> [] \<and> (hd S = CHR ''+'' \<or> hd S = CHR ''-'') then tl S else S);
          hex = (take 2 S1 = ''0x'' \<or> take 2 S1 = ''0X'');
          S2 = (if hex then drop 2 S1 else S1);
          R = (if hex then 16 else 10)
      in case parseDigits R False 0 S2 of
           None \<Rightarrow> None
         | Some mathInt \<Rightarrow> Some (sign * int mathInt))"

text \<open>\<open>x || 0\<close> on a number: \<open>NaN\<close> and zero are falsy.\<close>

definition orZero :: "int option \<Rightarrow> int" where
  "orZero x = (case x of None \<Rightarrow> 0 | Some v \<Rightarrow> (if v = 0 then 0 else v))"

text \<open>
  The two \<open>onChange\<close> handlers, on the configuration they replace; \<open>v\<close> is
  \<open>e.target.value\<close>. The inputs carry \<open>min="0" max="50"\<close> and \<open>min="0" max="10"\<close>
  (lines 347-348 and 362-363), attributes that do not restrict what \<open>e.target.value\<close> holds.
\<close>

definition onChange_numMultipleChoice :: "string \<Rightarrow> ExamConfig \<Rightarrow> ExamConfig" where
  "onChange_numMultipleChoice v config = config\<lparr>numMultipleChoice := orZero (parseInt v)\<rparr>"

definition onChange_numEssay :: "string \<Rightarrow> ExamConfig \<Rightarrow> ExamConfig" where
  "onChange_numEssay v config = config\<lparr>numEssay := orZero (parseInt v)\<rparr>"

subsection \<open>The attachment list (lines 37-67)\<close>

text \<open>\<open>Array.prototype.filter\<close> with a callback that also reads the index.\<close>

definition filter_index :: "('a \<Rightarrow> nat \<Rightarrow> bool) \<Rightarrow> 'a list \<Rightarrow> 'a list" where
  "filter_index p xs = map snd (filter (\<lambda>(i, x). p x i) (enumerate 0 xs))"

text \<open>
  \<open>removeFile\<close> on the list it is given by \<open>setFiles(prev => ...)\<close>. The argument is a
  JavaScript number; an integer here, so that indices below zero are inputs too.
\<close>

definition removeFile :: "int \<Rightarrow> File list \<Rightarrow> File list" where
  "removeFile indexToRemove prev = filter_index (\<lambda>_ index. int index \<noteq> indexToRemove) prev"

text \<open>The test of line 59: \<open>file.type === 'application/pdf' || file.type.startsWith('image/')\<close>.\<close>

definition startsWith :: "string \<Rightarrow> string \<Rightarrow> bool" where
  "startsWith s searchString = (take (length searchString) s = searchString)"

definition accepted :: "File \<Rightarrow> bool" where
  "accepted file = (file_type file = ''application/pdf'' \<or> startsWith (file_type file) ''image/'')"

subsection \<open>The output sanitizer (lines 172-180)\<close>

definition fence :: string where
  "fence = [CHR 0x60, CHR 0x60, CHR 0x60]"

definition fenceLatex :: string where
  "fenceLatex = fence @ ''latex''"

definition endsWith :: "string \<Rightarrow> string \<Rightarrow> bool" where
  "endsWith s searchString = (drop (length s - length searchString) s = searchString
     \<and> length searchString \<le> length s)"

text \<open>\<open>s.replace(/^p/, '')\<close> and \<open>s.replace(/p$/, '')\<close> for a literal \<open>p\<close>; the regular
  expressions have no flags, so \<open>$\<close> is the end of the input only.\<close>

definition replace_start :: "string \<Rightarrow> string \<Rightarrow> string" where
  "replace_start p s = (if startsWith s p then drop (length p) s else s)"

definition replace_end :: "string \<Rightarrow> string \<Rightarrow> string" where
  "replace_end p s = (if endsWith s p then take (length s - length p) s else s)"

definition trim :: "string \<Rightarrow> string" where
  "trim s = rev (dropWhile isWhiteSpace (rev (dropWhile isWhiteSpace s)))"

definition sanitize :: "string \<Rightarrow> string" where
  "sanitize text =
     trim (if startsWith text fenceLatex then replace_end fence (replace_start fenceLatex text)
           else if startsWith text fence then replace_end fence (replace_start fence text)
           else text)"

subsection \<open>Application state\<close>

datatype previewType = PreviewImage | PreviewPdf

record PreviewFile =
  preview_url :: nat
  preview_type :: previewType
  preview_name :: string

text \<open>
  The values of the \<open>error\<close> state. The two fixed messages are Vietnamese sentences:
  \<open>ValidationMessage\<close> is the text of line 97 (it asks for a topic or an uploaded document),
  \<open>GenericFailureMessage\<close> the fallback of line 182 (an error occurred while generating).
\<close>

datatype message = ValidationMessage | GenericFailureMessage | ErrorMessage string

text \<open>
  The instruction text of lines 109-150 is a template literal of fixed Vietnamese text
  with interpolations. \<open>Literal k\<close> is its \<open>k\<close>-th fixed text, counted in source order
  (the texts inside the conditional interpolations included); the interpolated values
  are kept as they are.
\<close>

datatype piece = Literal nat | Text string | Number int | DifficultyLabel ExamDifficulty

datatype part = TextPart "piece list" | InlineDataPart string "string option"

text \<open>A thrown object or rejection reason, as the \<open>catch\<close> block reads it: its \<open>message\<close>
  property, \<open>None\<close> when it has none.\<close>

datatype thrown = Thrown "string option"

datatype readOutcome = onload string | onerror

text \<open>
  What the surroundings do during one run of \<open>handleGenerate\<close>: whether the constructor
  of the client throws, the template of \<open>getLatexTemplate\<close> (from \<open>./types\<close>, not among
  the sources), the outcome of the \<open>FileReader\<close> for the attachment at each position,
  and the outcome of \<open>generateContent\<close> (\<open>response.text\<close>, which may be undefined).
\<close>

record env =
  newGoogleGenAI :: "thrown option"
  getLatexTemplate :: "language \<Rightarrow> string"
  readAsDataURL :: "nat \<Rightarrow> readOutcome"
  generateContent :: "part list \<Rightarrow> thrown + string option"

text \<open>
  The component state of lines 6-24, and the effects outside it: the object URLs created
  and not yet revoked, the calls of \<open>URL.revokeObjectURL\<close> (latest first), the next
  fresh URL, the calls of \<open>generateContent\<close> (in order), and the runs of
  \<open>handleGenerate\<close> suspended at an \<open>await\<close>, each with the \<open>config\<close> and \<open>files\<close> of the
  render it was started from.
\<close>

record App =
  config :: ExamConfig
  files :: "File list"
  isDragging :: bool
  generatedCode :: string
  isLoading :: bool
  error :: "message option"
  previewFile :: "PreviewFile option"
  objectURLs :: "nat set"
  revokeLog :: "nat list"
  nextURL :: nat
  requests :: "part list list"
  pending :: "(ExamConfig \<times> File list) list"

definition initial :: App where
  "initial = \<lparr>config = \<lparr>topic = [], grade = ''6'', difficulty = MEDIUM, numMultipleChoice = 10,
                         numEssay = 2, useTikz = True, varyData = False, language = vi\<rparr>,
              files = [], isDragging = False, generatedCode = [], isLoading = False,
              error = None, previewFile = None, objectURLs = {}, revokeLog = [], nextURL = 0,
              requests = [], pending = []\<rparr>"

subsection \<open>Attachment handlers (lines 37-67)\<close>

definition handleFileChange :: "File list \<Rightarrow> App \<Rightarrow> App" where
  "handleFileChange newFiles s =
     (if newFiles \<noteq> [] then s\<lparr>files := files s @ newFiles\<rparr> else s)"

definition onDragOver :: "App \<Rightarrow> App" where
  "onDragOver s = s\<lparr>isDragging := True\<rparr>"

definition onDragLeave :: "App \<Rightarrow> App" where
  "onDragLeave s = s\<lparr>isDragging := False\<rparr>"

definition onDrop :: "File list \<Rightarrow> App \<Rightarrow> App" where
  "onDrop dataTransferFiles s =
     (let s1 = s\<lparr>isDragging := False\<rparr>
      in if dataTransferFiles \<noteq> []
         then (let droppedFiles = filter accepted dataTransferFiles
               in s1\<lparr>files := files s1 @ droppedFiles\<rparr>)
         else s1)"

subsection \<open>Preview (lines 29-35 and 69-80)\<close>

definition createObjectURL :: "App \<Rightarrow> nat \<times> App" where
  "createObjectURL s =
     (nextURL s, s\<lparr>objectURLs := insert (nextURL s) (objectURLs s), nextURL := Suc (nextURL s)\<rparr>)"

definition revokeObjectURL :: "nat \<Rightarrow> App \<Rightarrow> App" where
  "revokeObjectURL u s = s\<lparr>objectURLs := objectURLs s - {u}, revokeLog := u # revokeLog s\<rparr>"

text \<open>The cleanup function returned by the effect of lines 29-35, with the \<open>previewFile\<close>
  of the render that installed it.\<close>

definition effect_cleanup :: "PreviewFile option \<Rightarrow> App \<Rightarrow> App" where
  "effect_cleanup captured s =
     (case captured of None \<Rightarrow> s | Some p \<Rightarrow> revokeObjectURL (preview_url p) s)"

text \<open>
  \<open>setPreviewFile\<close> followed by the render it causes. The effect depends on
  \<open>[previewFile]\<close>, so the cleanup installed by the previous render runs when the value
  changes; both callers change it (a fresh object in \<open>handlePreview\<close>, \<open>null\<close> in place of
  an object in \<open>closePreview\<close>).
\<close>

definition setPreviewFile :: "PreviewFile option \<Rightarrow> App \<Rightarrow> App" where
  "setPreviewFile v s = effect_cleanup (previewFile s) (s\<lparr>previewFile := v\<rparr>)"

definition handlePreview :: "File \<Rightarrow> App \<Rightarrow> App" where
  "handlePreview file s =
     (let (url, s1) = createObjectURL s;
          type = (if file_type file = ''application/pdf'' then PreviewPdf else PreviewImage)
      in setPreviewFile
           (Some \<lparr>preview_url = url, preview_type = type, preview_name = file_name file\<rparr>) s1)"

definition closePreview :: "App \<Rightarrow> App" where
  "closePreview s =
     (case previewFile s of
        None \<Rightarrow> s
      | Some p \<Rightarrow> setPreviewFile None (revokeObjectURL (preview_url p) s))"

text \<open>Unmounting the component runs the cleanup of the last render.\<close>

definition unmount :: "App \<Rightarrow> App" where
  "unmount s = effect_cleanup (previewFile s) s"

subsection \<open>Generation (lines 82-186)\<close>

text \<open>\<open>String.prototype.split\<close> at a single code unit.\<close>

fun split :: "char \<Rightarrow> string \<Rightarrow> string list" where
  "split sep [] = [[]]"
| "split sep (c # cs) =
     (if c = sep then [] # split sep cs
      else (case split sep cs of [] \<Rightarrow> [[c]] | w # ws \<Rightarrow> (c # w) # ws))"

text \<open>Reading an index of an array: \<open>None\<close> is \<open>undefined\<close>.\<close>

definition at_index :: "'a list \<Rightarrow> nat \<Rightarrow> 'a option" where
  "at_index xs i = (if i < length xs then Some (xs ! i) else None)"

text \<open>
  \<open>fileToBase64\<close> on the outcome of the reader: \<open>onload\<close> resolves with
  \<open>result.split(',')[1]\<close>; \<open>onerror\<close> rejects with the event of the reader, which has no
  \<open>message\<close>.
\<close>

definition fileToBase64 :: "readOutcome \<Rightarrow> thrown + string option" where
  "fileToBase64 r =
     (case r of onload result \<Rightarrow> Inr (at_index (split CHR '','' result) 1)
              | onerror \<Rightarrow> Inl (Thrown None))"

text \<open>
  The template literal of lines 109-150. The fixed texts are:
  0 the role and the heading of the special requirements; 1 and 2 the sentence around
  the number of attached documents; 3 the line break after it; 4 vary the data; 5 keep the
  data; 6 the heading of the language requirements up to the output language; 7 Vietnamese;
  8 English; 9 the end of that line; 10 translate everything to English; 11 the heading of
  the content requirements up to the topic; 12 the fallback "according to the attached
  documents"; 13 up to the grade; 14 up to the difficulty; 15 up to the number of multiple
  choice questions; 16 up to the number of essay questions; 17 up to the figures; 18 draw
  with TikZ; 19 insert a placeholder image; 20 the code structure requirements up to the
  name of the template; 21 and 22 the name of the language; 23 the line break before the
  template; 24 the white space after it.
\<close>

definition promptText :: "ExamConfig \<Rightarrow> nat \<Rightarrow> string \<Rightarrow> piece list" where
  "promptText cfg files_length currentTemplate =
     [Literal 0]
     @ (if files_length > 0 then [Literal 1, Number (int files_length), Literal 2] else [])
     @ [Literal 3,
        if varyData cfg then Literal 4 else Literal 5,
        Literal 6,
        if language cfg = vi then Literal 7 else Literal 8,
        Literal 9]
     @ (if language cfg = en then [Literal 10] else [])
     @ [Literal 11,
        if topic cfg \<noteq> [] then Text (topic cfg) else Literal 12,
        Literal 13, Text (grade cfg),
        Literal 14, DifficultyLabel (difficulty cfg),
        Literal 15, Number (numMultipleChoice cfg),
        Literal 16, Number (numEssay cfg),
        Literal 17,
        if useTikz cfg then Literal 18 else Literal 19,
        Literal 20,
        if language cfg = vi then Literal 21 else Literal 22,
        Literal 23, Text currentTemplate, Literal 24]"

text \<open>
  The loop of lines 154-162: the attachments in order, each awaited before the next is
  read; \<open>i\<close> is the position of the first attachment of \<open>fs\<close>. A rejection leaves the loop.
\<close>

fun encode :: "env \<Rightarrow> nat \<Rightarrow> File list \<Rightarrow> part list \<Rightarrow> thrown + part list" where
  "encode e i [] parts = Inr parts"
| "encode e i (file # fs) parts =
     (case fileToBase64 (readAsDataURL e i) of
        Inl err \<Rightarrow> Inl err
      | Inr base64Data \<Rightarrow> encode e (Suc i) fs (parts @ [InlineDataPart (file_type file) base64Data]))"

text \<open>
  The \<open>try\<close> block of lines 105-180 for the \<open>config\<close> and \<open>files\<close> of the run: what it
  throws or the text it passes to \<open>setGeneratedCode\<close>, and the calls of
  \<open>generateContent\<close> it has made.
\<close>

definition tryBlock :: "env \<Rightarrow> ExamConfig \<Rightarrow> File list \<Rightarrow> (thrown + string) \<times> part list list" where
  "tryBlock e cfg fs =
     (case newGoogleGenAI e of
        Some err \<Rightarrow> (Inl err, [])
      | None \<Rightarrow>
          (let currentTemplate = getLatexTemplate e (language cfg);
               prompt = promptText cfg (length fs) currentTemplate
           in case encode e 0 fs [TextPart prompt] of
                Inl err \<Rightarrow> (Inl err, [])
              | Inr parts \<Rightarrow>
                  (case generateContent e parts of
                     Inl err \<Rightarrow> (Inl err, [parts])
                   | Inr response_text \<Rightarrow>
                       (let text = (case response_text of None \<Rightarrow> [] | Some t \<Rightarrow> t)
                        in (Inr (sanitize text), [parts])))))"

text \<open>\<open>err.message || '...'\<close> of line 182.\<close>

definition messageOf :: "thrown \<Rightarrow> message" where
  "messageOf err =
     (case err of Thrown None \<Rightarrow> GenericFailureMessage
                | Thrown (Some m) \<Rightarrow> (if m = [] then GenericFailureMessage else ErrorMessage m))"

text \<open>The guard of line 96: \<open>!config.topic && files.length === 0\<close>.\<close>

definition validationFails :: "App \<Rightarrow> bool" where
  "validationFails s = (topic (config s) = [] \<and> files s = [])"

text \<open>
  \<open>handleGenerate\<close> up to its first \<open>await\<close>: the guard, the three state updates of lines
  101-103, and the run is suspended with the \<open>config\<close> and \<open>files\<close> it closed over.
\<close>

definition handleGenerate_begin :: "App \<Rightarrow> App" where
  "handleGenerate_begin s =
     (if validationFails s then s\<lparr>error := Some ValidationMessage\<rparr>
      else s\<lparr>isLoading := True, error := None, generatedCode := [],
             pending := pending s @ [(config s, files s)]\<rparr>)"

text \<open>
  The rest of the suspended run at position \<open>k\<close>, on the state at the time it settles:
  the \<open>try\<close> block, then \<open>setGeneratedCode\<close> or the \<open>catch\<close> block, then \<open>finally\<close>.
\<close>

definition handleGenerate_settle :: "env \<Rightarrow> nat \<Rightarrow> App \<Rightarrow> App" where
  "handleGenerate_settle e k s =
     (if k < length (pending s)
      then (let (cfg, fs) = pending s ! k;
                (outcome, calls) = tryBlock e cfg fs;
                s1 = s\<lparr>pending := take k (pending s) @ drop (Suc k) (pending s),
                       requests := requests s @ calls\<rparr>;
                s2 = (case outcome of
                        Inr text \<Rightarrow> s1\<lparr>generatedCode := text\<rparr>
                      | Inl err \<Rightarrow> s1\<lparr>error := Some (messageOf err)\<rparr>)
            in s2\<lparr>isLoading := False\<rparr>)
      else s)"

text \<open>One call of \<open>handleGenerate\<close> run to its end with nothing happening in between.\<close>

definition handleGenerate :: "env \<Rightarrow> App \<Rightarrow> App" where
  "handleGenerate e s =
     (if validationFails s then handleGenerate_begin s
      else handleGenerate_settle e (length (pending s)) (handleGenerate_begin s))"

subsection \<open>The rendered controls (lines 193-541)\<close>

text \<open>
  What the user can do with the rendered page. The generate button is rendered with
  \<open>disabled={isLoading}\<close> (line 409), so a click reaches \<open>handleGenerate\<close> only when
  \<open>isLoading\<close> is false. The preview and remove buttons exist for the positions of
  \<open>files\<close> (lines 266-292). \<open>Settled k e\<close> is the suspended run at position \<open>k\<close> coming to
  its end in the surroundings \<open>e\<close>.
\<close>

datatype event =
    FileInputChange "File list"
  | DragOver
  | DragLeave
  | Drop "File list"
  | RemoveClick nat
  | PreviewClick nat
  | ClosePreviewClick
  | TopicChange string
  | GradeChange string
  | DifficultyChange ExamDifficulty
  | MultipleChoiceChange string
  | EssayChange string
  | TikzClick
  | VaryDataClick
  | LanguageClick language
  | GenerateClick
  | Settled nat env

definition setConfig :: "(ExamConfig \<Rightarrow> ExamConfig) \<Rightarrow> App \<Rightarrow> App" where
  "setConfig f s = s\<lparr>config := f (config s)\<rparr>"

fun step :: "event \<Rightarrow> App \<Rightarrow> App" where
  "step (FileInputChange fs) s = handleFileChange fs s"
| "step DragOver s = onDragOver s"
| "step DragLeave s = onDragLeave s"
| "step (Drop fs) s = onDrop fs s"
| "step (RemoveClick idx) s =
     (if idx < length (files s) then s\<lparr>files := removeFile (int idx) (files s)\<rparr> else s)"
| "step (PreviewClick idx) s =
     (if idx < length (files s) then handlePreview (files s ! idx) s else s)"
| "step ClosePreviewClick s = closePreview s"
| "step (TopicChange v) s = setConfig (\<lambda>c. c\<lparr>topic := v\<rparr>) s"
| "step (GradeChange v) s = setConfig (\<lambda>c. c\<lparr>grade := v\<rparr>) s"
| "step (DifficultyChange v) s = setConfig (\<lambda>c. c\<lparr>difficulty := v\<rparr>) s"
| "step (MultipleChoiceChange v) s = setConfig (onChange_numMultipleChoice v) s"
| "step (EssayChange v) s = setConfig (onChange_numEssay v) s"
| "step TikzClick s = setConfig (\<lambda>c. c\<lparr>useTikz := \<not> useTikz c\<rparr>) s"
| "step VaryDataClick s = setConfig (\<lambda>c. c\<lparr>varyData := \<not> varyData c\<rparr>) s"
| "step (LanguageClick l) s = setConfig (\<lambda>c. c\<lparr>language := l\<rparr>) s"
| "step GenerateClick s = (if isLoading s then s else handleGenerate_begin s)"
| "step (Settled k e) s = handleGenerate_settle e k s"

definition run :: "event list \<Rightarrow> App \<Rightarrow> App" where
  "run evs s = foldl (\<lambda>s ev. step ev s) s evs"

subsection \<open>Predicates of the specification and example inputs\<close>

text \<open>Text with no white space at either end.\<close>

definition trimmed :: "string \<Rightarrow> bool" where
  "trimmed s = (dropWhile isWhiteSpace s = s \<and> dropWhile isWhiteSpace (rev s) = rev s)"

text \<open>At most one run suspended, and the busy flag set exactly while one is.\<close>

definition one_episode :: "App \<Rightarrow> bool" where
  "one_episode s = (length (pending s) \<le> 1 \<and> (isLoading s = (pending s \<noteq> [])))"

text \<open>
  The only live object URL is that of the preview shown; it has been handed out and has
  not been revoked yet, and every revoked URL has been handed out.
\<close>

definition preview_owned :: "App \<Rightarrow> bool" where
  "preview_owned s =
     (list_all (\<lambda>u. u < nextURL s) (revokeLog s) \<and>
      (case previewFile s of
         None \<Rightarrow> objectURLs s = {}
       | Some p \<Rightarrow> objectURLs s = {preview_url p} \<and> preview_url p < nextURL s
                  \<and> count_list (revokeLog s) (preview_url p) = 0))"

text \<open>The part of an attachment in the payload: its type and the base64 text read for it.\<close>

definition encodedPart :: "env \<Rightarrow> nat \<times> File \<Rightarrow> part" where
  "encodedPart e = (\<lambda>(i, file). InlineDataPart (file_type file)
     (case readAsDataURL e i of onload result \<Rightarrow> at_index (split CHR '','' result) 1
                              | onerror \<Rightarrow> None))"

definition fileA :: File where
  "fileA = \<lparr>file_name = ''a.pdf'', file_type = ''application/pdf'', file_blob = 1\<rparr>"

definition fileB :: File where
  "fileB = \<lparr>file_name = ''b.png'', file_type = ''image/png'', file_blob = 2\<rparr>"

definition fileTxt :: File where
  "fileTxt = \<lparr>file_name = ''notes.txt'', file_type = ''text/plain'', file_blob = 3\<rparr>"

text \<open>Surroundings in which everything succeeds and the answer is \<open>DOC\<close> inside a fence.\<close>

definition env_ok :: env where
  "env_ok = \<lparr>newGoogleGenAI = None,
             getLatexTemplate = (\<lambda>_. ''T''),
             readAsDataURL = (\<lambda>_. onload ''data:image/png;base64,QUJD''),
             generateContent = (\<lambda>_. Inr (Some (fence @ ''DOC'' @ fence)))\<rparr>"

text \<open>The same, except that the reader fails on the attachment at position 1.\<close>

definition env_fail :: env where
  "env_fail = env_ok\<lparr>readAsDataURL :=
                 (\<lambda>i. if i = 1 then onerror else onload ''data:application/pdf;base64,QUJD'')\<rparr>"

section \<open>Auxiliary facts\<close>

lemmas handler_defs = handleFileChange_def onDragOver_def onDragLeave_def onDrop_def
  setConfig_def handleGenerate_begin_def

lemmas preview_defs = handlePreview_def closePreview_def unmount_def createObjectURL_def
  setPreviewFile_def effect_cleanup_def revokeObjectURL_def

lemma run_Nil: "run [] s = s"
  by (simp add: run_def)

lemma run_snoc: "run (evs @ [ev]) s = step ev (run evs s)"
  by (simp add: run_def)

subsection \<open>Removing by index\<close>

lemma filter_index_keep:
  "(\<And>i. n \<le> i \<Longrightarrow> p i) \<Longrightarrow> map snd (filter (\<lambda>(i, x). p i) (enumerate n xs)) = xs"
  by (induction xs arbitrary: n) simp_all

lemma filter_index_drop:
  "map snd (filter (\<lambda>(i, x). i \<noteq> n + j) (enumerate n xs)) = take j xs @ drop (Suc j) xs"
proof (induction xs arbitrary: n j)
  case Nil
  then show ?case by simp
next
  case (Cons x xs)
  show ?case
  proof (cases j)
    case 0
    have "map snd (filter (\<lambda>(i, x). i \<noteq> n) (enumerate (Suc n) xs)) = xs"
      by (rule filter_index_keep) simp
    with 0 show ?thesis by simp
  next
    case (Suc j')
    have "map snd (filter (\<lambda>(i, x). i \<noteq> Suc n + j') (enumerate (Suc n) xs)) =
          take j' xs @ drop (Suc j') xs"
      by (rule Cons.IH)
    with Suc show ?thesis by simp
  qed
qed

lemma removeFile_nonneg:
  assumes "0 \<le> i"
  shows "removeFile i fs = take (nat i) fs @ drop (Suc (nat i)) fs"
proof -
  have "(\<lambda>(index, x::File). int index \<noteq> i) = (\<lambda>(index, x). index \<noteq> 0 + nat i)"
    using assms by (auto simp: fun_eq_iff)
  then show ?thesis
    using filter_index_drop [of 0 "nat i" fs] by (simp add: removeFile_def filter_index_def)
qed

lemma removeFile_negative:
  assumes "i < 0"
  shows "removeFile i fs = fs"
proof -
  have "map snd (filter (\<lambda>(index, x). int index \<noteq> i) (enumerate 0 fs)) = fs"
    by (rule filter_index_keep) (use assms in simp)
  then show ?thesis by (simp add: removeFile_def filter_index_def)
qed

subsection \<open>The sanitizer\<close>

lemma trimmed_iff:
  "trimmed s \<longleftrightarrow> s = [] \<or> (\<not> isWhiteSpace (hd s) \<and> \<not> isWhiteSpace (last s))"
  by (auto simp: trimmed_def dropWhile_eq_self_iff hd_rev)

lemma trim_trimmed: "trimmed s \<Longrightarrow> trim s = s"
  by (simp add: trimmed_def trim_def)

lemma trimmed_trim: "trimmed (trim s)"
proof -
  define u where "u = dropWhile isWhiteSpace s"
  define v where "v = dropWhile isWhiteSpace (rev u)"
  have t: "trim s = rev v" by (simp add: trim_def u_def v_def)
  show ?thesis
  proof (cases "v = []")
    case True
    then show ?thesis by (simp add: t trimmed_iff)
  next
    case False
    have "\<not> isWhiteSpace (hd v)"
      using False unfolding v_def by (rule hd_dropWhile)
    then have l: "\<not> isWhiteSpace (last (rev v))"
      using False by (simp add: last_rev)
    have "rev u = takeWhile isWhiteSpace (rev u) @ v"
      by (simp add: v_def)
    then have "rev (rev u) = rev (takeWhile isWhiteSpace (rev u) @ v)" by simp
    then have ueq: "u = rev v @ rev (takeWhile isWhiteSpace (rev u))" by simp
    have "u \<noteq> []" using False v_def by auto
    then have "\<not> isWhiteSpace (hd u)"
      unfolding u_def by (rule hd_dropWhile)
    moreover have "hd u = hd (rev v)"
      using False by (subst ueq) simp
    ultimately have h: "\<not> isWhiteSpace (hd (rev v))" by simp
    show ?thesis by (simp add: t trimmed_iff h l)
  qed
qed

lemma length_trim: "length (trim s) \<le> length s"
proof -
  have "length (dropWhile isWhiteSpace (rev (dropWhile isWhiteSpace s)))
        \<le> length (rev (dropWhile isWhiteSpace s))"
    by (rule length_dropWhile_le)
  also have "\<dots> \<le> length s" by (simp add: length_dropWhile_le)
  finally show ?thesis by (simp add: trim_def)
qed

lemma length_replace_end: "length (replace_end p s) \<le> length s"
  by (simp add: replace_end_def)

lemma length_replace_start:
  "startsWith s p \<Longrightarrow> p \<noteq> [] \<Longrightarrow> s \<noteq> [] \<Longrightarrow> length (replace_start p s) < length s"
  by (simp add: replace_start_def)

lemma startsWith_fenceLatex: "startsWith s fenceLatex \<Longrightarrow> startsWith s fence"
proof -
  assume "startsWith s fenceLatex"
  then have "take (length fenceLatex) s = fence @ ''latex''"
    by (simp add: startsWith_def fenceLatex_def)
  then have "take 3 (take (length fenceLatex) s) = take 3 (fence @ ''latex'')" by simp
  then show ?thesis by (simp add: startsWith_def fence_def fenceLatex_def)
qed

lemma sanitize_trimmed: "trimmed (sanitize x)"
  by (simp add: sanitize_def trimmed_trim)

lemma sanitize_no_fence:
  assumes "trimmed y" "\<not> startsWith y fence"
  shows "sanitize y = y"
proof -
  have "\<not> startsWith y fenceLatex" using assms(2) startsWith_fenceLatex by blast
  then show ?thesis using assms by (simp add: sanitize_def trim_trimmed)
qed

lemma sanitize_fence_shorter:
  assumes "startsWith y fence"
  shows "length (sanitize y) < length y"
proof -
  have ne: "y \<noteq> []" using assms by (auto simp: startsWith_def fence_def)
  show ?thesis
  proof (cases "startsWith y fenceLatex")
    case True
    have "length (sanitize y) \<le> length (replace_end fence (replace_start fenceLatex y))"
      using True by (simp add: sanitize_def length_trim)
    also have "\<dots> \<le> length (replace_start fenceLatex y)" by (rule length_replace_end)
    also have "\<dots> < length y"
      using True ne by (intro length_replace_start) (simp_all add: fenceLatex_def fence_def)
    finally show ?thesis .
  next
    case False
    have "length (sanitize y) \<le> length (replace_end fence (replace_start fence y))"
      using False assms by (simp add: sanitize_def length_trim)
    also have "\<dots> \<le> length (replace_start fence y)" by (rule length_replace_end)
    also have "\<dots> < length y"
      using assms ne by (intro length_replace_start) (simp_all add: fence_def)
    finally show ?thesis .
  qed
qed

subsection \<open>Suspended runs\<close>

lemma settle_pending:
  "pending (handleGenerate_settle e k s) =
     (if k < length (pending s) then take k (pending s) @ drop (Suc k) (pending s) else pending s)"
  by (simp add: handleGenerate_settle_def Let_def split: prod.splits sum.splits)

lemma settle_isLoading:
  "isLoading (handleGenerate_settle e k s) = (if k < length (pending s) then False else isLoading s)"
  by (simp add: handleGenerate_settle_def Let_def split: prod.splits sum.splits)

lemma settle_preview:
  "previewFile (handleGenerate_settle e k s) = previewFile s"
  "objectURLs (handleGenerate_settle e k s) = objectURLs s"
  "nextURL (handleGenerate_settle e k s) = nextURL s"
  "revokeLog (handleGenerate_settle e k s) = revokeLog s"
  by (simp_all add: handleGenerate_settle_def Let_def split: prod.splits sum.splits)

lemma step_one_episode: "one_episode s \<Longrightarrow> one_episode (step ev s)"
proof (cases ev)
  case (Settled k e)
  assume "one_episode s"
  then show ?thesis
    by (cases "pending s") (auto simp: Settled one_episode_def settle_pending settle_isLoading)
next
  case GenerateClick
  assume "one_episode s"
  then show ?thesis
    by (auto simp: GenerateClick one_episode_def handleGenerate_begin_def)
next
  case (PreviewClick idx)
  assume "one_episode s"
  then show ?thesis
    by (simp add: PreviewClick one_episode_def preview_defs split: option.splits)
next
  case ClosePreviewClick
  assume "one_episode s"
  then show ?thesis
    by (simp add: ClosePreviewClick one_episode_def preview_defs split: option.splits)
qed (simp_all add: one_episode_def handler_defs Let_def)

lemma run_one_episode: "one_episode (run evs initial)"
proof (induction evs rule: rev_induct)
  case Nil
  show ?case by (simp add: run_Nil one_episode_def initial_def)
next
  case (snoc ev evs)
  then show ?case by (simp add: run_snoc step_one_episode)
qed

subsection \<open>Object URLs\<close>

lemma list_all_less_Suc: "list_all (\<lambda>u. u < (n::nat)) xs \<Longrightarrow> list_all (\<lambda>u. u < Suc n) xs"
  by (induction xs) auto

lemma count_list_fresh: "list_all (\<lambda>u. u < (n::nat)) xs \<Longrightarrow> count_list xs n = 0"
  by (induction xs) auto

lemma handlePreview_owned: "preview_owned s \<Longrightarrow> preview_owned (handlePreview f s)"
  by (auto simp: preview_owned_def preview_defs list_all_less_Suc count_list_fresh
      split: option.splits)

lemma closePreview_owned: "preview_owned s \<Longrightarrow> preview_owned (closePreview s)"
  by (auto simp: preview_owned_def preview_defs split: option.splits)

lemma step_preview_owned: "preview_owned s \<Longrightarrow> preview_owned (step ev s)"
proof (cases ev)
  case (Settled k e)
  assume "preview_owned s"
  then show ?thesis by (simp add: Settled preview_owned_def settle_preview split: option.splits)
next
  case GenerateClick
  assume "preview_owned s"
  then show ?thesis
    by (simp add: GenerateClick preview_owned_def handleGenerate_begin_def split: option.splits)
next
  case (PreviewClick idx)
  assume "preview_owned s"
  then show ?thesis by (simp add: PreviewClick handlePreview_owned)
next
  case ClosePreviewClick
  assume "preview_owned s"
  then show ?thesis by (simp add: ClosePreviewClick closePreview_owned)
qed (simp_all add: preview_owned_def handler_defs Let_def split: option.splits)

lemma run_preview_owned: "preview_owned (run evs initial)"
proof (induction evs rule: rev_induct)
  case Nil
  show ?case by (simp add: run_Nil preview_owned_def initial_def)
next
  case (snoc ev evs)
  then show ?case by (simp add: run_snoc step_preview_owned)
qed

subsection \<open>The encoding loop\<close>

lemma encode_onerror:
  "i < length fs \<Longrightarrow> readAsDataURL e (n + i) = onerror \<Longrightarrow> encode e n fs parts = Inl (Thrown None)"
proof (induction fs arbitrary: n i parts)
  case Nil
  then show ?case by simp
next
  case (Cons f fs)
  show ?case
  proof (cases i)
    case 0
    with Cons.prems show ?thesis by (simp add: fileToBase64_def)
  next
    case (Suc j)
    with Cons.prems have "j < length fs" "readAsDataURL e (Suc n + j) = onerror" by simp_all
    then have "encode e (Suc n) fs ps = Inl (Thrown None)" for ps
      by (rule Cons.IH)
    then show ?thesis
      by (simp add: fileToBase64_def split: readOutcome.splits)
  qed
qed

lemma encode_onload:
  "(\<And>i. i < length fs \<Longrightarrow> readAsDataURL e (n + i) \<noteq> onerror) \<Longrightarrow>
   encode e n fs parts = Inr (parts @ map (encodedPart e) (enumerate n fs))"
proof (induction fs arbitrary: n parts)
  case Nil
  then show ?case by simp
next
  case (Cons f fs)
  have "readAsDataURL e (n + 0) \<noteq> onerror" by (rule Cons.prems) simp
  then obtain r where r: "readAsDataURL e n = onload r"
    by (cases "readAsDataURL e n") simp_all
  have "readAsDataURL e (Suc n + i) \<noteq> onerror" if "i < length fs" for i
    using Cons.prems [of "Suc i"] that by simp
  then have "encode e (Suc n) fs ps = Inr (ps @ map (encodedPart e) (enumerate (Suc n) fs))" for ps
    by (rule Cons.IH)
  then show ?case
    by (simp add: r fileToBase64_def encodedPart_def)
qed

lemma handleGenerate_passes:
  assumes "\<not> validationFails s"
  shows "handleGenerate e s =
     (case tryBlock e (config s) (files s) of
        (Inr text, calls) \<Rightarrow>
          s\<lparr>isLoading := False, error := None, generatedCode := text, requests := requests s @ calls\<rparr>
      | (Inl err, calls) \<Rightarrow>
          s\<lparr>isLoading := False, error := Some (messageOf err), generatedCode := [],
            requests := requests s @ calls\<rparr>)"
  using assms
  by (simp add: handleGenerate_def handleGenerate_begin_def handleGenerate_settle_def Let_def
      split: prod.splits sum.splits)

lemmas example_defs = initial_def fileA_def fileB_def fileTxt_def env_ok_def env_fail_def

lemmas sanitize_defs = sanitize_def fenceLatex_def fence_def startsWith_def endsWith_def
  replace_start_def replace_end_def trim_def isWhiteSpace_def

section \<open>The count fields\<close>

text \<open>
  An entry that \<open>parseInt\<close> does not read as a number, the empty entry among them, is
  stored as 0 in either field.
\<close>

lemma parseInt_empty: "parseInt [] = None"
  by (simp add: parseInt_def)

lemma count_fields_non_numeric:
  "parseInt v = None \<Longrightarrow>
   numMultipleChoice (onChange_numMultipleChoice v c) = 0 \<and> numEssay (onChange_numEssay v c) = 0"
  by (simp add: onChange_numMultipleChoice_def onChange_numEssay_def orZero_def)

text \<open>
  Claim C1 says that every edit of the two count fields stores a value in \<open>[0,50]\<close>
  (multiple choice) or \<open>[0,10]\<close> (essay). The handlers store what \<open>parseInt\<close> reads with no
  clamp: the entry \<open>999\<close> is stored as 999 in the multiple choice count, and the entry
  \<open>-3\<close> is stored as -3 in the essay count.
\<close>

theorem count_fields_not_clamped:
  "numMultipleChoice (config (step (MultipleChoiceChange ''999'') initial)) = 999
   \<and> numEssay (config (step (EssayChange ''-3'') initial)) = - 3"
  by (simp add: setConfig_def onChange_numMultipleChoice_def onChange_numEssay_def orZero_def
      parseInt_def isWhiteSpace_def digitValue_def initial_def)

section \<open>The sanitizer\<close>

text \<open>
  Claim C2 as stated, \<open>sanitize(sanitize(x)) == sanitize(x)\<close> for every text, fails for a
  text that opens with two fence markers: each pass strips one. It also fails for a
  response that has white space before its fence: the first pass only trims, the second
  strips the fence that the trim brought to the front.
\<close>

theorem sanitize_not_idempotent:
  "sanitize (sanitize (fence @ fence @ ''DOC'')) \<noteq> sanitize (fence @ fence @ ''DOC'')
   \<and> sanitize (sanitize ('' '' @ fenceLatex @ ''DOC'' @ fence))
       \<noteq> sanitize ('' '' @ fenceLatex @ ''DOC'' @ fence)"
  by (simp add: sanitize_defs)

text \<open>
  Claim C2, amended: the sanitized text has no white space at either end, and sanitizing
  it again changes nothing exactly when it does not begin with a fence marker.
\<close>

theorem sanitize_idempotent_iff:
  "trim (sanitize x) = sanitize x
   \<and> (sanitize (sanitize x) = sanitize x \<longleftrightarrow> \<not> startsWith (sanitize x) fence)"
proof (intro conjI iffI)
  show "trim (sanitize x) = sanitize x"
    using sanitize_trimmed by (rule trim_trimmed)
next
  assume eq: "sanitize (sanitize x) = sanitize x"
  show "\<not> startsWith (sanitize x) fence"
  proof
    assume "startsWith (sanitize x) fence"
    then have "length (sanitize (sanitize x)) < length (sanitize x)"
      by (rule sanitize_fence_shorter)
    with eq show False by simp
  qed
next
  assume "\<not> startsWith (sanitize x) fence"
  with sanitize_trimmed show "sanitize (sanitize x) = sanitize x"
    by (rule sanitize_no_fence)
qed

theorem sanitize_idempotent_iff_witness:
  "sanitize (sanitize (fenceLatex @ ''DOC'' @ fence)) = sanitize (fenceLatex @ ''DOC'' @ fence)
   \<and> sanitize (fenceLatex @ ''DOC'' @ fence) = ''DOC''"
  using sanitize_idempotent_iff [of "fenceLatex @ ''DOC'' @ fence"]
  by (simp add: sanitize_defs)

section \<open>The attachment list\<close>

text \<open>
  Claim C8 says that only files of type \<open>application/pdf\<close> or \<open>image/*\<close> reach the list of
  attachments, from the drop zone and from the file picker. \<open>onDrop\<close> filters;
  \<open>handleFileChange\<close> does not: a \<open>text/plain\<close> file chosen in the picker is appended,
  the same file dropped is discarded.
\<close>

theorem file_picker_not_filtered:
  "files (step (FileInputChange [fileTxt]) initial) = [fileTxt] \<and> \<not> accepted fileTxt
   \<and> files (step (Drop [fileTxt]) initial) = []"
  by (simp add: handleFileChange_def onDrop_def accepted_def startsWith_def example_defs)

text \<open>The drop zone keeps the list within the accepted types.\<close>

lemma onDrop_accepted:
  "list_all accepted (files s) \<Longrightarrow> list_all accepted (files (onDrop fs s))"
  by (auto simp: onDrop_def Let_def list_all_iff)

text \<open>
  Claim C10: \<open>removeFile\<close> is total and raises nothing. For an index with no element
  (below zero, or at or beyond the length) the list is unchanged; for an index of the
  list exactly that element is removed: the elements before it and the elements after
  it remain, in their order, and the list is one shorter.
\<close>

theorem removeFile_total:
  "(i < 0 \<or> int (length fs) \<le> i \<longrightarrow> removeFile i fs = fs)
   \<and> (0 \<le> i \<and> i < int (length fs) \<longrightarrow>
        removeFile i fs = take (nat i) fs @ drop (Suc (nat i)) fs
        \<and> length (removeFile i fs) = length fs - 1)"
proof (intro conjI impI)
  assume "i < 0 \<or> int (length fs) \<le> i"
  then show "removeFile i fs = fs"
  proof
    assume "i < 0"
    then show ?thesis by (rule removeFile_negative)
  next
    assume "int (length fs) \<le> i"
    then have "0 \<le> i" "length fs \<le> nat i" by simp_all
    then show ?thesis by (simp add: removeFile_nonneg)
  qed
next
  assume a: "0 \<le> i \<and> i < int (length fs)"
  then show "removeFile i fs = take (nat i) fs @ drop (Suc (nat i)) fs"
    by (simp add: removeFile_nonneg)
  from a have "nat i < length fs" by linarith
  with a show "length (removeFile i fs) = length fs - 1"
    by (simp add: removeFile_nonneg)
qed

theorem removeFile_total_witness:
  "removeFile 1 [fileA, fileTxt, fileB] = [fileA, fileB]
   \<and> removeFile 3 [fileA, fileTxt, fileB] = [fileA, fileTxt, fileB]
   \<and> removeFile (- 1) [fileA, fileTxt, fileB] = [fileA, fileTxt, fileB]"
  using removeFile_total [of 1 "[fileA, fileTxt, fileB]"]
    removeFile_total [of 3 "[fileA, fileTxt, fileB]"]
    removeFile_total [of "- 1" "[fileA, fileTxt, fileB]"]
  by simp

section \<open>The preview resource\<close>

lemmas run_simps = run_def handler_defs example_defs

lemma preview_example:
  "run [FileInputChange [fileA, fileB], PreviewClick 0] initial
   = initial\<lparr>files := [fileA, fileB],
       previewFile := Some \<lparr>preview_url = 0, preview_type = PreviewPdf, preview_name = ''a.pdf''\<rparr>,
       objectURLs := {0}, nextURL := 1\<rparr>"
  by (simp add: run_simps preview_defs)

text \<open>
  Claim C3 says that closing a preview releases its resource exactly once. Closing calls
  \<open>URL.revokeObjectURL\<close> twice for the URL of the preview: once in \<open>closePreview\<close> and
  once more in the cleanup of the effect, which runs because \<open>previewFile\<close> has changed.
\<close>

theorem close_releases_twice:
  "revokeLog (run [FileInputChange [fileA, fileB], PreviewClick 0, ClosePreviewClick] initial) = [0, 0]
   \<and> count_list
        (revokeLog (run [FileInputChange [fileA, fileB], PreviewClick 0, ClosePreviewClick] initial)) 0
       \<noteq> 1"
  by (simp add: run_simps preview_defs)

text \<open>
  Claim C3, amended. After any sequence of user actions at most one object URL is live,
  and it is the URL of the preview shown. While a preview is shown: opening another
  leaves only the new URL live and revokes the old one once, by the time the new preview
  is rendered; closing revokes the URL and leaves no URL live and no preview; unmounting
  revokes it once. After unmounting no URL is live.
\<close>

theorem preview_lifecycle:
  assumes "s = run evs initial"
  shows "card (objectURLs s) \<le> 1
       \<and> (previewFile s = None \<longrightarrow> objectURLs s = {})
       \<and> (\<forall>p. previewFile s = Some p \<longrightarrow>
              objectURLs s = {preview_url p}
            \<and> objectURLs (handlePreview f s) = {nextURL s}
            \<and> nextURL s \<noteq> preview_url p
            \<and> count_list (revokeLog (handlePreview f s)) (preview_url p) = 1
            \<and> objectURLs (closePreview s) = {}
            \<and> previewFile (closePreview s) = None
            \<and> 1 \<le> count_list (revokeLog (closePreview s)) (preview_url p)
            \<and> count_list (revokeLog (unmount s)) (preview_url p) = 1)
       \<and> objectURLs (unmount s) = {}"
proof -
  have own: "preview_owned s" unfolding assms by (rule run_preview_owned)
  show ?thesis
  proof (cases "previewFile s")
    case None
    with own show ?thesis by (simp add: preview_owned_def preview_defs)
  next
    case (Some p)
    with own have live: "objectURLs s = {preview_url p}" and old: "preview_url p < nextURL s"
      and unrevoked: "count_list (revokeLog s) (preview_url p) = 0"
      by (simp_all add: preview_owned_def)
    from old have "insert (nextURL s) {preview_url p} - {preview_url p} = {nextURL s}"
      by auto
    with Some live old unrevoked show ?thesis
      by (simp add: preview_defs)
  qed
qed

theorem preview_lifecycle_witness:
  "previewFile (run [FileInputChange [fileA, fileB], PreviewClick 0] initial)
     = Some \<lparr>preview_url = 0, preview_type = PreviewPdf, preview_name = ''a.pdf''\<rparr>
   \<and> objectURLs (run [FileInputChange [fileA, fileB], PreviewClick 0] initial) = {0}
   \<and> objectURLs (handlePreview fileB (run [FileInputChange [fileA, fileB], PreviewClick 0] initial)) = {1}
   \<and> objectURLs (closePreview (run [FileInputChange [fileA, fileB], PreviewClick 0] initial)) = {}
   \<and> objectURLs (unmount (run [FileInputChange [fileA, fileB], PreviewClick 0] initial)) = {}"
  using preview_lifecycle [of "run [FileInputChange [fileA, fileB], PreviewClick 0] initial"
      "[FileInputChange [fileA, fileB], PreviewClick 0]" fileB, OF refl]
  by (simp add: preview_example)

section \<open>Generation\<close>

lemma requesting_example:
  "run [TopicChange ''x'', GenerateClick] initial
   = initial\<lparr>config := (config initial)\<lparr>topic := ''x''\<rparr>, isLoading := True,
             pending := [((config initial)\<lparr>topic := ''x''\<rparr>, [])]\<rparr>"
  by (simp add: run_simps validationFails_def)

text \<open>
  Claim C4 says that the pipeline itself ignores a submit while a request is running.
  \<open>handleGenerate\<close> has no such test: called in a state with \<open>isLoading\<close> set, it changes
  the state, a second run is suspended beside the first, and one more call of
  \<open>generateContent\<close> is made.
\<close>

theorem busy_guard_absent:
  "isLoading (run [TopicChange ''x'', GenerateClick] initial)
   \<and> handleGenerate_begin (run [TopicChange ''x'', GenerateClick] initial)
       \<noteq> run [TopicChange ''x'', GenerateClick] initial
   \<and> length (pending (handleGenerate_begin (run [TopicChange ''x'', GenerateClick] initial))) = 2
   \<and> length (requests (handleGenerate env_ok (run [TopicChange ''x'', GenerateClick] initial)))
       = Suc (length (requests (run [TopicChange ''x'', GenerateClick] initial)))"
  by (simp add: requesting_example)
     (simp add: initial_def handleGenerate_def handleGenerate_begin_def validationFails_def
        handleGenerate_settle_def tryBlock_def env_ok_def)

text \<open>
  Claim C4, amended. The guard is the \<open>disabled\<close> attribute of the generate button: after
  any sequence of user actions and settled runs at most one run is suspended, the busy
  flag is set exactly while one is, and a click on the button while it is set changes
  nothing (so it makes no call). \<open>handleGenerate\<close> itself does not test the flag.
\<close>

theorem one_requesting_episode:
  "length (pending (run evs initial)) \<le> 1
   \<and> isLoading (run evs initial) = (pending (run evs initial) \<noteq> [])
   \<and> (isLoading (run evs initial) \<longrightarrow>
        step GenerateClick (run evs initial) = run evs initial)"
  using run_one_episode [of evs] by (simp add: one_episode_def)

theorem one_requesting_episode_witness:
  "isLoading (run [TopicChange ''x'', GenerateClick] initial)
   \<and> step GenerateClick (run [TopicChange ''x'', GenerateClick] initial)
       = run [TopicChange ''x'', GenerateClick] initial
   \<and> length (pending (run [TopicChange ''x'', GenerateClick] initial)) = 1"
  using one_requesting_episode [of "[TopicChange ''x'', GenerateClick]"]
  by (simp add: requesting_example)

text \<open>
  Claim C5: with an empty topic and no attachments, a submission makes no call of
  \<open>generateContent\<close>, suspends no run, sets the validation message as the error, and
  leaves the busy flag as it was, also in the state right after the guard.
\<close>

theorem validation_rejects:
  assumes "topic (config s) = []" and "files s = []"
  shows "requests (handleGenerate e s) = requests s
       \<and> pending (handleGenerate e s) = pending s
       \<and> error (handleGenerate e s) = Some ValidationMessage
       \<and> isLoading (handleGenerate e s) = isLoading s
       \<and> handleGenerate_begin s = handleGenerate e s"
  using assms by (simp add: handleGenerate_def handleGenerate_begin_def validationFails_def)

theorem validation_rejects_witness:
  "topic (config initial) = [] \<and> files initial = []
   \<and> requests (handleGenerate env_ok initial) = []
   \<and> error (handleGenerate env_ok initial) = Some ValidationMessage
   \<and> \<not> isLoading (handleGenerate env_ok initial)"
  using validation_rejects [of initial env_ok] by (simp add: initial_def)

text \<open>A state with a published result and an empty topic, reached by the user.\<close>

lemma after_success:
  "run [TopicChange ''x'', GenerateClick, Settled 0 env_ok, TopicChange []] initial
   = initial\<lparr>generatedCode := ''DOC'',
             requests := [[TextPart (promptText (config initial\<lparr>topic := ''x''\<rparr>) 0 ''T'')]]\<rparr>"
  by (simp add: run_simps validationFails_def handleGenerate_settle_def tryBlock_def
      sanitize_defs)

text \<open>
  Claim C9: a submission rejected by the guard leaves the published text as it was; the
  text is cleared only when the guard has passed.
\<close>

theorem validation_keeps_result:
  "(validationFails s \<longrightarrow> generatedCode (handleGenerate e s) = generatedCode s)
   \<and> (\<not> validationFails s \<longrightarrow> generatedCode (handleGenerate_begin s) = [])"
  by (simp add: handleGenerate_def handleGenerate_begin_def)

theorem validation_keeps_result_witness:
  "validationFails (run [TopicChange ''x'', GenerateClick, Settled 0 env_ok, TopicChange []] initial)
   \<and> generatedCode (handleGenerate env_ok
        (run [TopicChange ''x'', GenerateClick, Settled 0 env_ok, TopicChange []] initial)) = ''DOC''"
  using validation_keeps_result
    [of "run [TopicChange ''x'', GenerateClick, Settled 0 env_ok, TopicChange []] initial" env_ok]
  by (simp add: after_success) (simp add: validationFails_def initial_def)

text \<open>The attachments are kept in the order they were added.\<close>

lemma handleFileChange_appends: "files (handleFileChange new s) = files s @ new"
  by (simp add: handleFileChange_def)

lemma onDrop_appends: "files (onDrop new s) = files s @ filter accepted new"
  by (simp add: onDrop_def Let_def)

lemma two_files: "run [FileInputChange [fileA], FileInputChange [fileB]] initial
   = initial\<lparr>files := [fileA, fileB]\<rparr>"
  by (simp add: run_simps)

text \<open>
  Claim C6: if the reader fails on any attachment, the submission fails as a whole: no
  call of \<open>generateContent\<close> is made (so no payload with only the attachments read before
  is sent), the busy flag is cleared, an error message is set and no text is published.
  When the client was constructed, the message is the fixed fallback, the event of the
  reader having no message of its own.
\<close>

theorem encoding_failure_fails_whole:
  assumes "i < length (files s)" and "readAsDataURL e i = onerror"
  shows "requests (handleGenerate e s) = requests s
       \<and> \<not> isLoading (handleGenerate e s)
       \<and> error (handleGenerate e s) \<noteq> None
       \<and> generatedCode (handleGenerate e s) = []
       \<and> (newGoogleGenAI e = None \<longrightarrow> error (handleGenerate e s) = Some GenericFailureMessage)"
proof -
  from assms(1) have pass: "\<not> validationFails s"
    by (auto simp: validationFails_def)
  from assms have enc: "encode e 0 (files s) ps = Inl (Thrown None)" for ps
    using encode_onerror [of i "files s" e 0] by simp
  have "tryBlock e (config s) (files s) =
          (case newGoogleGenAI e of Some err \<Rightarrow> (Inl err, []) | None \<Rightarrow> (Inl (Thrown None), []))"
    by (simp add: tryBlock_def enc split: option.splits)
  then show ?thesis
    by (simp add: handleGenerate_passes [OF pass] messageOf_def split: option.splits)
qed

theorem encoding_failure_fails_whole_witness:
  "1 < length (files (run [FileInputChange [fileA], FileInputChange [fileB]] initial))
   \<and> readAsDataURL env_fail 1 = onerror
   \<and> requests (handleGenerate env_fail (run [FileInputChange [fileA], FileInputChange [fileB]] initial)) = []
   \<and> error (handleGenerate env_fail (run [FileInputChange [fileA], FileInputChange [fileB]] initial))
       = Some GenericFailureMessage"
  using encoding_failure_fails_whole
    [of 1 "run [FileInputChange [fileA], FileInputChange [fileB]] initial" env_fail]
  by (simp add: two_files) (simp add: example_defs)

text \<open>
  Claim C7: for a non-empty list of attachments whose reads all succeed, the one call
  made carries the instruction text first and then one part for each attachment, in the
  order of the list, with the type of the attachment and the base64 text read for it.
  The loop awaits each read before it starts the next, so the order does not depend on
  how long a read takes.
\<close>

theorem payload_order:
  assumes "files s \<noteq> []" and "newGoogleGenAI e = None"
    and "\<forall>i<length (files s). readAsDataURL e i \<noteq> onerror"
  shows "requests (handleGenerate e s) = requests s @
           [TextPart (promptText (config s) (length (files s))
                        (getLatexTemplate e (language (config s))))
            # map (encodedPart e) (enumerate 0 (files s))]"
proof -
  from assms(1) have pass: "\<not> validationFails s"
    by (simp add: validationFails_def)
  from assms(3) have "encode e 0 (files s) ps = Inr (ps @ map (encodedPart e) (enumerate 0 (files s)))"
    for ps
    by (intro encode_onload) simp
  then show ?thesis
    by (simp add: handleGenerate_passes [OF pass] tryBlock_def assms(2) Let_def split: sum.splits)
qed

theorem payload_order_witness:
  "files (run [FileInputChange [fileA], FileInputChange [fileB]] initial) = [fileA, fileB]
   \<and> tl (hd (requests (handleGenerate env_ok
        (run [FileInputChange [fileA], FileInputChange [fileB]] initial))))
     = [InlineDataPart ''application/pdf'' (Some ''QUJD''), InlineDataPart ''image/png'' (Some ''QUJD'')]"
  using payload_order
    [of "run [FileInputChange [fileA], FileInputChange [fileB]] initial" env_ok]
  by (simp add: two_files) (simp add: example_defs encodedPart_def at_index_def)

end
